theory Spec2Isabelle
  imports Main
begin

section \<open>Python values, exceptions and built-in sequence operations\<close>

text \<open>
  Parsers of \<^verbatim>\<open>parsy/__init__.py\<close> return the untyped triple
  \<^verbatim>\<open>(status, next_index, value)\<close>. The third slot holds the parsed value on success and the
  expectation on failure, so both are drawn from one universe of Python values.
  A character of the input is one \<open>char\<close>; indices are Python's unbounded integers.
\<close>

datatype pyval =
    PyNone
  | PyStr string
  | PyInt int
  | PyList "pyval list"
  | PyTuple "pyval list"

text \<open>\<^verbatim>\<open>ParseError(expected, stream, index)\<close>: the three stored fields, in this order.\<close>

datatype ParseError = ParseError pyval string int

text \<open>
  Exceptions that leave a call, and the objects that are tested with
  \<^verbatim>\<open>isinstance(_, Parser)\<close>. \<open>InvalidIndex\<close> is the \<^verbatim>\<open>raise "invalid index"\<close> of
  \<^verbatim>\<open>line_info_at\<close> (Python 3 refuses to raise a string and raises a TypeError in its
  place; either way an exception leaves the call). \<open>StopIteration\<close> carries its
  \<^verbatim>\<open>value\<close>, any object, a parser included. \<open>HostError\<close> is any other exception raised by
  a callback or generator body supplied by the host program.

  A \<^verbatim>\<open>Parser\<close> object wraps a function of the input and an index, and \<^verbatim>\<open>__call__\<close> applies
  it: a parser is that function. The outcome of calling it: \<open>None\<close> when the call does not
  return, \<open>Some (Inl e)\<close> when it raises \<open>e\<close>, \<open>Some (Inr (status, next_index, value))\<close>
  when it returns the triple.
\<close>

datatype error =
    InvalidIndex
  | IndexError
  | TypeError
  | ParseErrorExc ParseError
  | StopIteration pyobj
  | HostError string
and pyobj =
    Value pyval
  | ParserObj "string \<Rightarrow> int \<Rightarrow> (error + bool \<times> int \<times> pyval) option"

type_synonym result = "bool \<times> int \<times> pyval"
type_synonym outcome = "(error + result) option"
type_synonym parser = "string \<Rightarrow> int \<Rightarrow> outcome"

text \<open>Python's \<^verbatim>\<open>s[i:j]\<close>, \<^verbatim>\<open>s[i:]\<close> and \<^verbatim>\<open>s[i]\<close> on integers of either sign.\<close>

definition slice_bound :: "nat \<Rightarrow> int \<Rightarrow> nat" where
  "slice_bound n i = (if i < 0 then nat (max 0 (i + int n)) else min (nat i) n)"

definition py_slice :: "'a list \<Rightarrow> int \<Rightarrow> int \<Rightarrow> 'a list" where
  "py_slice xs i j =
     (let lo = slice_bound (length xs) i; hi = slice_bound (length xs) j
      in take (hi - lo) (drop lo xs))"

definition py_slice_from :: "'a list \<Rightarrow> int \<Rightarrow> 'a list" where
  "py_slice_from xs i = drop (slice_bound (length xs) i) xs"

definition py_getitem :: "'a list \<Rightarrow> int \<Rightarrow> error + 'a" where
  "py_getitem xs i =
     (if 0 \<le> i \<and> i < int (length xs) then Inr (xs ! nat i)
      else if i < 0 \<and> - int (length xs) \<le> i then Inr (xs ! nat (i + int (length xs)))
      else Inl IndexError)"

text \<open>\<^verbatim>\<open>s.count(c)\<close> and \<^verbatim>\<open>s.rfind(c)\<close> for a one-character needle \<open>c\<close>.\<close>

definition str_count :: "string \<Rightarrow> char \<Rightarrow> int" where
  "str_count s c = int (length (filter (\<lambda>x. x = c) s))"

fun rfind_scan :: "string \<Rightarrow> char \<Rightarrow> int \<Rightarrow> int \<Rightarrow> int" where
  "rfind_scan [] c pos found = found"
| "rfind_scan (x # xs) c pos found = rfind_scan xs c (pos + 1) (if x = c then pos else found)"

definition str_rfind :: "string \<Rightarrow> char \<Rightarrow> int" where
  "str_rfind s c = rfind_scan s c 0 (- 1)"

text \<open>\<^verbatim>\<open>repr\<close> of an integer: its decimal digits, with a minus sign when negative.\<close>

definition digit_char :: "nat \<Rightarrow> char" where
  "digit_char d = ''0123456789'' ! d"

fun repr_nat :: "nat \<Rightarrow> string" where
  "repr_nat n = (if n < 10 then [digit_char n] else repr_nat (n div 10) @ [digit_char (n mod 10)])"

definition repr_int :: "int \<Rightarrow> string" where
  "repr_int i = (if i < 0 then CHR ''-'' # repr_nat (nat (- i)) else repr_nat (nat i))"

definition newline :: char where
  "newline = CHR 0x0A"

text \<open>\<^verbatim>\<open>a + b\<close> on the values that support it.\<close>

fun py_add :: "pyval \<Rightarrow> pyval \<Rightarrow> error + pyval" where
  "py_add (PyStr a) (PyStr b) = Inr (PyStr (a @ b))"
| "py_add (PyInt a) (PyInt b) = Inr (PyInt (a + b))"
| "py_add (PyList a) (PyList b) = Inr (PyList (a @ b))"
| "py_add (PyTuple a) (PyTuple b) = Inr (PyTuple (a @ b))"
| "py_add _ _ = Inl TypeError"


section \<open>Position and error model\<close>

definition line_info_at :: "string \<Rightarrow> int \<Rightarrow> error + (int \<times> int)" where
  "line_info_at stream index =
     (if index > int (length stream) then Inl InvalidIndex
      else
        let prefix = py_slice stream 0 index;
            line = str_count prefix newline;
            last_nl = str_rfind prefix newline;
            col = (if last_nl \<ge> 0 then index - 1 - last_nl else index)
        in Inr (line, col))"

fun ParseError_line_info :: "ParseError \<Rightarrow> error + (int \<times> int)" where
  "ParseError_line_info (ParseError expected stream index) = line_info_at stream index"

text \<open>
  \<^verbatim>\<open>ParseError.__str__\<close>. The conversion \<^verbatim>\<open>{!s}\<close> of the expectation is Python's built-in
  \<^verbatim>\<open>str\<close>, which lies outside the module; it is the parameter \<open>py_str\<close>.
\<close>

fun ParseError_str :: "(pyval \<Rightarrow> string) \<Rightarrow> ParseError \<Rightarrow> error + string" where
  "ParseError_str py_str (ParseError expected stream index) =
     (case ParseError_line_info (ParseError expected stream index) of
        Inl e \<Rightarrow> Inl e
      | Inr (line, col) \<Rightarrow>
          Inr (''parse error: expected '' @ py_str expected @ '' at ''
               @ repr_int line @ '':'' @ repr_int col))"


section \<open>Primitive parsers\<close>

definition index_parser :: parser where
  "index_parser = (\<lambda>stream index. Some (Inr (True, index, PyInt index)))"

definition line_info :: parser where
  "line_info = (\<lambda>stream index.
     case line_info_at stream index of
       Inl e \<Rightarrow> Some (Inl e)
     | Inr (line, col) \<Rightarrow> Some (Inr (True, index, PyTuple [PyInt line, PyInt col])))"

definition success :: "pyval \<Rightarrow> parser" where
  "success val = (\<lambda>_ index. Some (Inr (True, index, val)))"

definition fail :: "pyval \<Rightarrow> parser" where
  "fail message = (\<lambda>_ index. Some (Inr (False, index, message)))"

definition string :: "string \<Rightarrow> parser" where
  "string s =
     (let slen = int (length s)
      in (\<lambda>stream index.
            if py_slice stream index (index + slen) = s
            then Some (Inr (True, index + slen, PyStr s))
            else Some (Inr (False, index, PyStr s))))"

text \<open>
  A compiled pattern of Python's \<^verbatim>\<open>re\<close> module, which lies outside the module: its source
  text \<^verbatim>\<open>exp.pattern\<close> and its method \<^verbatim>\<open>exp.match(stream, index)\<close>, returning \<open>None\<close> or
  \<^verbatim>\<open>(match.end(), match.group(0))\<close>.
\<close>

datatype compiled_re = CompiledRe string "string \<Rightarrow> int \<Rightarrow> (int \<times> string) option"

fun re_pattern :: "compiled_re \<Rightarrow> string" where
  "re_pattern (CompiledRe src m) = src"

fun re_match :: "compiled_re \<Rightarrow> string \<Rightarrow> int \<Rightarrow> (int \<times> string) option" where
  "re_match (CompiledRe src m) = m"

definition regex_parser :: "compiled_re \<Rightarrow> parser" where
  "regex_parser exp = (\<lambda>stream index.
     case re_match exp stream index of
       Some (match_end, group0) \<Rightarrow> Some (Inr (True, match_end, PyStr group0))
     | None \<Rightarrow> Some (Inr (False, index, PyStr (re_pattern exp))))"

text \<open>
  \<^verbatim>\<open>regex(exp, flags)\<close>: a pattern given as text is first compiled by \<^verbatim>\<open>re.compile\<close>, the
  parameter \<open>re_compile\<close>, which may raise.
\<close>

definition regex ::
  "(string \<Rightarrow> int \<Rightarrow> error + compiled_re) \<Rightarrow> string + compiled_re \<Rightarrow> int \<Rightarrow> error + parser" where
  "regex re_compile exp flags =
     (case exp of
        Inl src \<Rightarrow> (case re_compile src flags of Inl e \<Rightarrow> Inl e | Inr c \<Rightarrow> Inr (regex_parser c))
      | Inr c \<Rightarrow> Inr (regex_parser c))"

definition whitespace :: "(string \<Rightarrow> int \<Rightarrow> error + compiled_re) \<Rightarrow> error + parser" where
  "whitespace re_compile = regex re_compile (Inl [CHR 0x5C, CHR ''s'', CHR ''+'']) 0"

definition item_matcher :: "(char \<Rightarrow> bool) \<Rightarrow> pyval \<Rightarrow> parser" where
  "item_matcher fn message = (\<lambda>stream index.
     if index < int (length stream) then
       (case py_getitem stream index of
          Inl e \<Rightarrow> Some (Inl e)
        | Inr c \<Rightarrow>
            if fn c then Some (Inr (True, index + 1, PyStr [c]))
            else Some (Inr (False, index, message)))
     else Some (Inr (False, index, message)))"

text \<open>\<^verbatim>\<open>str.isalpha\<close> and \<^verbatim>\<open>str.isdigit\<close> are built-ins, taken as parameters.\<close>

definition letter :: "(char \<Rightarrow> bool) \<Rightarrow> parser" where
  "letter isalpha = item_matcher isalpha (PyStr ''a letter'')"

definition digit :: "(char \<Rightarrow> bool) \<Rightarrow> parser" where
  "digit isdigit = item_matcher isdigit (PyStr ''a digit'')"

definition eof :: parser where
  "eof = (\<lambda>stream index.
     if index < int (length stream) then Some (Inr (False, index, PyStr ''EOF''))
     else Some (Inr (True, index, PyNone)))"


section \<open>Combinators\<close>

text \<open>
  A callback handed to a combinator by the host program is taken to return; it returns a
  value or raises: \<open>pyval \<Rightarrow> error + _\<close>.
\<close>

definition Parser_bind :: "parser \<Rightarrow> (pyval \<Rightarrow> error + parser) \<Rightarrow> parser" where
  "Parser_bind self bind_fn = (\<lambda>stream index.
     case self stream index of
       None \<Rightarrow> None
     | Some (Inl e) \<Rightarrow> Some (Inl e)
     | Some (Inr (status, new_index, value)) \<Rightarrow>
         if status then
           (case bind_fn value of
              Inl e \<Rightarrow> Some (Inl e)
            | Inr next_parser \<Rightarrow> next_parser stream new_index)
         else Some (Inr (False, index, value)))"

definition Parser_map :: "parser \<Rightarrow> (pyval \<Rightarrow> error + pyval) \<Rightarrow> parser" where
  "Parser_map self map_fn =
     Parser_bind self (\<lambda>res. case map_fn res of Inl e \<Rightarrow> Inl e | Inr v \<Rightarrow> Inr (success v))"

definition Parser_then :: "parser \<Rightarrow> parser \<Rightarrow> parser" where
  "Parser_then self other = Parser_bind self (\<lambda>_. Inr other)"

definition Parser_rshift :: "parser \<Rightarrow> parser \<Rightarrow> parser" where
  "Parser_rshift self other = Parser_then self other"

definition Parser_result :: "parser \<Rightarrow> pyval \<Rightarrow> parser" where
  "Parser_result self res = Parser_rshift self (success res)"

definition Parser_skip :: "parser \<Rightarrow> parser \<Rightarrow> parser" where
  "Parser_skip self other = Parser_bind self (\<lambda>res. Inr (Parser_result other res))"

definition Parser_lshift :: "parser \<Rightarrow> parser \<Rightarrow> parser" where
  "Parser_lshift self other = Parser_skip self other"

text \<open>
  \<^verbatim>\<open>many\<close>: the loop \<^verbatim>\<open>while True\<close> ends only when \<^verbatim>\<open>self\<close> fails, so it is a partial
  function; \<open>None\<close> is the loop that never ends.
\<close>

partial_function (option) many_loop ::
  "parser \<Rightarrow> string \<Rightarrow> int \<Rightarrow> pyval list \<Rightarrow> (error + result) option" where
  "many_loop self stream index aggregate =
     (case self stream index of
        None \<Rightarrow> None
      | Some (Inl e) \<Rightarrow> Some (Inl e)
      | Some (Inr (status, next_index, value)) \<Rightarrow>
          if status then many_loop self stream next_index (aggregate @ [value])
          else Some (Inr (True, index, PyList aggregate)))"

definition Parser_many :: "parser \<Rightarrow> parser" where
  "Parser_many self = (\<lambda>stream index. many_loop self stream index [])"

text \<open>
  \<^verbatim>\<open>times\<close>: the first loop runs \<^verbatim>\<open>range(0, min)\<close> and returns the failure of a required
  invocation, with the index that invocation reported; the second loop runs
  \<^verbatim>\<open>range(min, max)\<close> and stops at the first failure. The first argument of each function
  below is the number of iterations left.
\<close>

fun times_optional :: "nat \<Rightarrow> parser \<Rightarrow> string \<Rightarrow> int \<Rightarrow> pyval list \<Rightarrow> outcome" where
  "times_optional 0 self stream index aggregate = Some (Inr (True, index, PyList aggregate))"
| "times_optional (Suc n) self stream index aggregate =
     (case self stream index of
        None \<Rightarrow> None
      | Some (Inl e) \<Rightarrow> Some (Inl e)
      | Some (Inr (status, next_index, value)) \<Rightarrow>
          if status then times_optional n self stream next_index (aggregate @ [value])
          else Some (Inr (True, index, PyList aggregate)))"

fun times_required :: "nat \<Rightarrow> nat \<Rightarrow> parser \<Rightarrow> string \<Rightarrow> int \<Rightarrow> pyval list \<Rightarrow> outcome" where
  "times_required 0 more self stream index aggregate =
     times_optional more self stream index aggregate"
| "times_required (Suc n) more self stream index aggregate =
     (case self stream index of
        None \<Rightarrow> None
      | Some (Inl e) \<Rightarrow> Some (Inl e)
      | Some (Inr (status, next_index, value)) \<Rightarrow>
          if status then times_required n more self stream next_index (aggregate @ [value])
          else Some (Inr (False, next_index, value)))"

definition Parser_times :: "parser \<Rightarrow> int \<Rightarrow> int option \<Rightarrow> parser" where
  "Parser_times self min_arg max_arg =
     (let max' = (case max_arg of None \<Rightarrow> min_arg | Some m \<Rightarrow> m)
      in (\<lambda>stream index.
            times_required (nat min_arg) (nat (max' - min_arg)) self stream index []))"

definition Parser_at_most :: "parser \<Rightarrow> int \<Rightarrow> parser" where
  "Parser_at_most self n = Parser_times self 0 (Some n)"

definition Parser_add :: "parser \<Rightarrow> parser \<Rightarrow> parser" where
  "Parser_add self other =
     Parser_bind self (\<lambda>res. Inr (Parser_map other (\<lambda>res2. py_add res res2)))"

definition Parser_at_least :: "parser \<Rightarrow> int \<Rightarrow> parser" where
  "Parser_at_least self n = Parser_add (Parser_times self n None) (Parser_many self)"

text \<open>\<^verbatim>\<open>p * n\<close> and \<^verbatim>\<open>p * range(start, stop)\<close>.\<close>

datatype mul_arg = IntArg int | RangeArg int int

fun Parser_mul :: "parser \<Rightarrow> mul_arg \<Rightarrow> parser" where
  "Parser_mul self (RangeArg start stop) = Parser_times self start (Some (stop - 1))"
| "Parser_mul self (IntArg other) = Parser_times self other None"

text \<open>
  \<^verbatim>\<open>__or__\<close>: \<open>or_parser\<close> is the closure it returns; the \<^verbatim>\<open>isinstance\<close> test comes first.
\<close>

definition or_parser :: "parser \<Rightarrow> parser \<Rightarrow> parser" where
  "or_parser self other = (\<lambda>stream index.
     case self stream index of
       None \<Rightarrow> None
     | Some (Inl e) \<Rightarrow> Some (Inl e)
     | Some (Inr (status, next_index, value)) \<Rightarrow>
         if status then Some (Inr (True, next_index, value))
         else other stream index)"

fun Parser_or :: "parser \<Rightarrow> pyobj \<Rightarrow> error + parser" where
  "Parser_or self (Value v) = Inl TypeError"
| "Parser_or self (ParserObj other) = Inr (or_parser self other)"

text \<open>\<^verbatim>\<open>desc\<close> is \<^verbatim>\<open>self | fail(description)\<close>; \<^verbatim>\<open>fail(description)\<close> is a Parser.\<close>

definition Parser_desc :: "parser \<Rightarrow> pyval \<Rightarrow> parser" where
  "Parser_desc self description = or_parser self (fail description)"


section \<open>Coroutine-style sequencing\<close>

text \<open>
  The iterator made by a generator function, seen from \<^verbatim>\<open>iterator.send(value)\<close>: it yields
  the next parser and waits for the value sent next (\<open>Yield\<close>), or it returns
  (\<open>Return\<close>, the \<^verbatim>\<open>StopIteration\<close> value), or its body raises (\<open>Raise\<close>; a
  \<^verbatim>\<open>StopIteration\<close> that leaves \<^verbatim>\<open>send\<close> is the generator's return however it was
  raised, so \<open>Raise (StopIteration r)\<close> is read as \<open>Return r\<close>). The type is
  coinductive: a generator may yield for ever. The value of the first \<^verbatim>\<open>send(None)\<close> is
  not seen by the body. A generator function is its \<^verbatim>\<open>__name__\<close> and the iterator that
  \<^verbatim>\<open>fn()\<close> makes.
\<close>

codatatype gen = Yield parser "pyval \<Rightarrow> gen" | Return pyobj | Raise error

datatype generator_fn = GeneratorFn string gen

fun fn_name :: "generator_fn \<Rightarrow> string" where
  "fn_name (GeneratorFn name body) = name"

fun fn_call :: "generator_fn \<Rightarrow> gen" where
  "fn_call (GeneratorFn name body) = body"

text \<open>
  The \<^verbatim>\<open>except StopIteration\<close> branch of \<^verbatim>\<open>generated\<close>, at the index the loop has reached:
  a returned parser is run from there, any other returned value is a success there.
\<close>

definition stop_iteration :: "pyobj \<Rightarrow> parser" where
  "stop_iteration returnVal = (\<lambda>stream index.
     case returnVal of
       ParserObj p \<Rightarrow> p stream index
     | Value v \<Rightarrow> Some (Inr (True, index, v)))"

text \<open>
  The loop \<^verbatim>\<open>while True\<close> of \<^verbatim>\<open>generated\<close> ends when a yielded parser fails, when the
  generator returns or when something raises; over a generator that yields for ever and
  whose parsers always succeed it does not end, so the loop is a partial function. The
  \<^verbatim>\<open>try\<close> encloses both \<^verbatim>\<open>iterator.send(value)\<close> and \<^verbatim>\<open>next_parser(stream, index)\<close>: a
  \<^verbatim>\<open>StopIteration\<close> raised by the yielded parser is caught as the generator's own is, with
  the index as it was before that call. Every other exception leaves the loop.
\<close>

partial_function (option) generated_loop ::
  "gen \<Rightarrow> string \<Rightarrow> int \<Rightarrow> (error + result) option" where
  "generated_loop iterator stream index =
     (case iterator of
        Yield next_parser resume \<Rightarrow>
          (case next_parser stream index of
             None \<Rightarrow> None
           | Some (Inl e) \<Rightarrow>
               (case e of
                  StopIteration returnVal \<Rightarrow> stop_iteration returnVal stream index
                | _ \<Rightarrow> Some (Inl e))
           | Some (Inr (status, index', value)) \<Rightarrow>
               if \<not> status then Some (Inr (False, index', value))
               else generated_loop (resume value) stream index')
      | Return returnVal \<Rightarrow> stop_iteration returnVal stream index
      | Raise e \<Rightarrow>
          (case e of
             StopIteration returnVal \<Rightarrow> stop_iteration returnVal stream index
           | _ \<Rightarrow> Some (Inl e)))"

definition generated :: "generator_fn \<Rightarrow> parser" where
  "generated fn = (\<lambda>stream index. generated_loop (fn_call fn) stream index)"

definition generate :: "generator_fn \<Rightarrow> parser" where
  "generate fn = Parser_desc (generated fn) (PyStr (fn_name fn))"

text \<open>\<^verbatim>\<open>generate("label")\<close> returns the decorator \<^verbatim>\<open>lambda f: generate(f).desc("label")\<close>.\<close>

definition generate_labelled :: "string \<Rightarrow> generator_fn \<Rightarrow> parser" where
  "generate_labelled label f = Parser_desc (generate f) (PyStr label)"

definition Parser_mark :: "parser \<Rightarrow> parser" where
  "Parser_mark self =
     generate (GeneratorFn ''marked''
       (Yield line_info (\<lambda>start.
        Yield self (\<lambda>body.
        Yield line_info (\<lambda>end_pos.
        Return (Value (PyTuple [start, body, end_pos])))))))"


section \<open>Entry points\<close>

definition Parser_parse_partial :: "parser \<Rightarrow> string \<Rightarrow> (error + pyval \<times> string) option" where
  "Parser_parse_partial self str =
     (case self str 0 of
        None \<Rightarrow> None
      | Some (Inl e) \<Rightarrow> Some (Inl e)
      | Some (Inr (status, index, value)) \<Rightarrow>
          if status then Some (Inr (value, py_slice_from str index))
          else Some (Inl (ParseErrorExc (ParseError value str index))))"

definition Parser_parse :: "parser \<Rightarrow> string \<Rightarrow> (error + pyval) option" where
  "Parser_parse self str =
     (case Parser_parse_partial (Parser_lshift self eof) str of
        None \<Rightarrow> None
      | Some (Inl e) \<Rightarrow> Some (Inl e)
      | Some (Inr (res, _)) \<Rightarrow> Some (Inr res))"


section \<open>Notions used to state the properties\<close>

text \<open>
  One turn of the loop of \<^verbatim>\<open>generated\<close> in which the yielded parser succeeds takes the
  iterator \<open>Yield next_parser resume\<close> at \<open>index\<close> to \<open>resume sent\<close> at \<open>index'\<close>, \<open>sent\<close>
  being the value of the success.
  \<open>run_to stream iterator index iterator' index'\<close>: some number of such turns lead from
  the first pair to the second.
\<close>

inductive run_to :: "string \<Rightarrow> gen \<Rightarrow> int \<Rightarrow> gen \<Rightarrow> int \<Rightarrow> bool" for stream where
  run_here: "run_to stream iterator index iterator index"
| run_step: "next_parser stream index = Some (Inr (True, index', sent)) \<Longrightarrow>
     run_to stream (resume sent) index' iterator' index'' \<Longrightarrow>
     run_to stream (Yield next_parser resume) index iterator' index''"

text \<open>
  On the input and from the index given, the loop of \<^verbatim>\<open>generated\<close> never gets a
  \<^verbatim>\<open>StopIteration\<close> from a parser the generator yields.
\<close>

definition no_stop :: "string \<Rightarrow> gen \<Rightarrow> int \<Rightarrow> bool" where
  "no_stop stream iterator index \<longleftrightarrow>
     (\<forall>p resume i r. run_to stream iterator index (Yield p resume) i
        \<longrightarrow> p stream i \<noteq> Some (Inl (StopIteration r)))"

text \<open>
  The hand-chained \<^verbatim>\<open>bind\<close> expression of a generator, following the words of the
  specification: each \<^verbatim>\<open>x = yield p\<close> followed by the rest of the body becomes
  \<^verbatim>\<open>p.bind(lambda x: rest)\<close>; a returned value \<open>v\<close> becomes \<^verbatim>\<open>success(v)\<close> and a returned
  parser stands for itself; a body that raises becomes a parser that raises. A body that
  loops is chained by a function that calls itself, so the expression is defined by
  recursion, as \<^verbatim>\<open>bind\<close> runs it: where the recursion does not end, the parser does not
  return. The lemma says that \<^verbatim>\<open>bind\<close> only runs the parser its callback returns.
\<close>

lemma Parser_bind_mono [partial_function_mono]:
  assumes "\<And>x s i. mono_option (\<lambda>f. B f x s i)"
  shows "mono_option (\<lambda>f. Parser_bind p (\<lambda>x. Inr (\<lambda>s i. B f x s i)) stream index)"
proof (cases "p stream index")
  case None
  then show ?thesis by (simp add: Parser_bind_def option.const_mono)
next
  case (Some r)
  show ?thesis
  proof (cases r)
    case (Inl e)
    with Some show ?thesis by (simp add: Parser_bind_def option.const_mono)
  next
    case (Inr t)
    obtain status new_index v where t: "t = (status, new_index, v)" by (cases t)
    show ?thesis
    proof (cases status)
      case True
      with Some Inr t show ?thesis by (simp add: Parser_bind_def assms)
    next
      case False
      with Some Inr t show ?thesis by (simp add: Parser_bind_def option.const_mono)
    qed
  qed
qed

fun chain_end :: "pyobj \<Rightarrow> parser" where
  "chain_end (Value v) = success v"
| "chain_end (ParserObj q) = q"

partial_function (option) bind_chain ::
  "gen \<Rightarrow> string \<Rightarrow> int \<Rightarrow> (error + result) option" where
  "bind_chain g stream index =
     (case g of
        Yield p resume \<Rightarrow>
          Parser_bind p (\<lambda>x. Inr (\<lambda>s i. bind_chain (resume x) s i)) stream index
      | Return returnVal \<Rightarrow> chain_end returnVal stream index
      | Raise e \<Rightarrow>
          (case e of
             StopIteration returnVal \<Rightarrow> chain_end returnVal stream index
           | _ \<Rightarrow> Some (Inl e)))"

text \<open>
  Two outcomes that are equal, or are two failures with the same expectation.
\<close>

definition agree :: "outcome \<Rightarrow> outcome \<Rightarrow> bool" where
  "agree a b \<longleftrightarrow> a = b \<or> (\<exists>i j x. a = Some (Inr (False, i, x)) \<and> b = Some (Inr (False, j, x)))"

text \<open>
  A generator that loops: \<^verbatim>\<open>while True: v = yield p; if v == ';': return\<close>.
\<close>

primcorec until_semicolon :: "parser \<Rightarrow> gen" where
  "until_semicolon p =
     Yield p (\<lambda>v. if v = PyStr '';'' then Return (Value PyNone) else until_semicolon p)"

text \<open>
  The parsers a generator hands to the loop of \<^verbatim>\<open>generated\<close>: those it yields, after any
  values sent to it, and the one it returns.
\<close>

inductive hands_over :: "gen \<Rightarrow> parser \<Rightarrow> bool" where
  hands_yield: "hands_over (Yield p resume) p"
| hands_later: "hands_over (resume v) q \<Longrightarrow> hands_over (Yield p resume) q"
| hands_return: "hands_over (Return (ParserObj p)) p"
| hands_raise: "hands_over (Raise (StopIteration (ParserObj p))) p"

text \<open>
  The parsers built from the primitives and combinators of the module, over the compiled
  patterns \<open>res\<close>. Every other combinator is defined from these: \<^verbatim>\<open>map\<close>, \<^verbatim>\<open>then\<close>,
  \<^verbatim>\<open>skip\<close>, \<^verbatim>\<open>result\<close>, \<^verbatim>\<open>+\<close>, \<^verbatim>\<open>>>\<close> and \<^verbatim>\<open><<\<close> from \<^verbatim>\<open>bind\<close>; \<^verbatim>\<open>desc\<close> from
  \<^verbatim>\<open>|\<close>; \<^verbatim>\<open>at_most\<close>, \<^verbatim>\<open>at_least\<close> and \<^verbatim>\<open>*\<close> from \<^verbatim>\<open>times\<close> and \<^verbatim>\<open>many\<close>; \<^verbatim>\<open>generate\<close>
  and \<^verbatim>\<open>mark\<close> from \<^verbatim>\<open>generated\<close> and \<^verbatim>\<open>desc\<close>. A parser that a callback hands over, as
  its result or as the value of a \<^verbatim>\<open>StopIteration\<close> it raises, is built in the same way.
\<close>

inductive library_parser :: "compiled_re set \<Rightarrow> parser \<Rightarrow> bool" for res where
  lib_success: "library_parser res (success val)"
| lib_fail: "library_parser res (fail message)"
| lib_string: "library_parser res (string s)"
| lib_regex: "exp \<in> res \<Longrightarrow> library_parser res (regex_parser exp)"
| lib_item_matcher: "library_parser res (item_matcher fn message)"
| lib_eof: "library_parser res eof"
| lib_index: "library_parser res index_parser"
| lib_line_info: "library_parser res line_info"
| lib_bind: "library_parser res self \<Longrightarrow>
     (\<And>x next_parser. bind_fn x = Inr next_parser \<Longrightarrow> library_parser res next_parser) \<Longrightarrow>
     (\<And>x q. bind_fn x = Inl (StopIteration (ParserObj q)) \<Longrightarrow> library_parser res q) \<Longrightarrow>
     library_parser res (Parser_bind self bind_fn)"
| lib_or: "library_parser res self \<Longrightarrow> library_parser res other \<Longrightarrow>
     library_parser res (or_parser self other)"
| lib_many: "library_parser res self \<Longrightarrow> library_parser res (Parser_many self)"
| lib_times: "library_parser res self \<Longrightarrow> library_parser res (Parser_times self min_arg max_arg)"
| lib_generated: "(\<And>p. hands_over (fn_call fn) p \<Longrightarrow> library_parser res p) \<Longrightarrow>
     library_parser res (generated fn)"









section \<open>Facts about slices and the parsers of literals\<close>

lemma py_slice_prefix:
  "0 \<le> index \<Longrightarrow> index \<le> int (length xs) \<Longrightarrow> py_slice xs 0 index = take (nat index) xs"
  by (simp add: py_slice_def slice_bound_def)

lemma string_a_ab_0: "string ''a'' ''ab'' 0 = Some (Inr (True, 1, PyStr ''a''))"
  by (simp add: string_def py_slice_def slice_bound_def)

lemma string_a_ab_1: "string ''a'' ''ab'' 1 = Some (Inr (False, 1, PyStr ''a''))"
  by (simp add: string_def py_slice_def slice_bound_def)

lemma string_ab_ab_0: "string ''ab'' ''ab'' 0 = Some (Inr (True, 2, PyStr ''ab''))"
  by (simp add: string_def py_slice_def slice_bound_def)

lemma string_a_aaab:
  "string ''a'' ''aaab'' 0 = Some (Inr (True, 1, PyStr ''a''))"
  "string ''a'' ''aaab'' 1 = Some (Inr (True, 2, PyStr ''a''))"
  "string ''a'' ''aaab'' 2 = Some (Inr (True, 3, PyStr ''a''))"
  "string ''a'' ''aaab'' 3 = Some (Inr (False, 3, PyStr ''a''))"
  by (simp_all add: string_def py_slice_def slice_bound_def)

lemma times_2_a_ab:
  "Parser_times (string ''a'') 2 None ''ab'' 0 = Some (Inr (False, 1, PyStr ''a''))"
  by (simp add: Parser_times_def numeral_2_eq_2 string_a_ab_0 string_a_ab_1)


section \<open>Position and error model: theorems\<close>

lemma filter_take_card:
  assumes "n \<le> length s"
  shows "length (filter (\<lambda>x. x = c) (take n s)) = card {j. j < n \<and> s ! j = c}"
proof -
  have "length (filter (\<lambda>x. x = c) (take n s))
          = card {i. i < length (take n s) \<and> take n s ! i = c}"
    by (rule length_filter_conv_card)
  also have "{i. i < length (take n s) \<and> take n s ! i = c} = {j. j < n \<and> s ! j = c}"
    using assms by auto
  finally show ?thesis .
qed

lemma rfind_scan_absent:
  "\<forall>x \<in> set xs. x \<noteq> c \<Longrightarrow> rfind_scan xs c pos found = found"
  by (induction xs arbitrary: pos found) auto

lemma rfind_scan_last:
  "j < length xs \<Longrightarrow> xs ! j = c \<Longrightarrow> (\<forall>k. j < k \<and> k < length xs \<longrightarrow> xs ! k \<noteq> c)
   \<Longrightarrow> rfind_scan xs c pos found = pos + int j"
proof (induction xs arbitrary: pos found j)
  case Nil
  then show ?case by simp
next
  case (Cons x xs)
  show ?case
  proof (cases j)
    case 0
    have "\<forall>y \<in> set xs. y \<noteq> c"
    proof
      fix y assume "y \<in> set xs"
      then obtain k where k: "k < length xs" "xs ! k = y"
        by (auto simp: in_set_conv_nth)
      with Cons.prems(3) 0 have "(x # xs) ! Suc k \<noteq> c" by auto
      with k show "y \<noteq> c" by simp
    qed
    with Cons.prems 0 show ?thesis by (simp add: rfind_scan_absent)
  next
    case (Suc j')
    have here: "j' < length xs" "xs ! j' = c"
      using Cons.prems Suc by auto
    have later: "\<forall>k. j' < k \<and> k < length xs \<longrightarrow> xs ! k \<noteq> c"
    proof (intro allI impI)
      fix k assume "j' < k \<and> k < length xs"
      with Cons.prems(3) Suc have "(x # xs) ! Suc k \<noteq> c" by auto
      then show "xs ! k \<noteq> c" by simp
    qed
    from Cons.IH[OF here later] Suc show ?thesis by simp
  qed
qed

lemma str_rfind_take:
  assumes n: "n \<le> length s"
  shows "str_rfind (take n s) c =
          (if \<exists>j < n. s ! j = c then int (Max {j. j < n \<and> s ! j = c}) else - 1)"
proof (cases "\<exists>j < n. s ! j = c")
  case False
  have "\<forall>x \<in> set (take n s). x \<noteq> c"
  proof
    fix x assume "x \<in> set (take n s)"
    then obtain i where "i < length (take n s)" "take n s ! i = x"
      by (auto simp: in_set_conv_nth)
    then have "i < n" "s ! i = x" by simp_all
    with False show "x \<noteq> c" by blast
  qed
  with False show ?thesis by (simp add: str_rfind_def rfind_scan_absent)
next
  case True
  let ?S = "{j. j < n \<and> s ! j = c}"
  have fin: "finite ?S" by simp
  have ne: "?S \<noteq> {}" using True by auto
  have mem: "Max ?S \<in> ?S" using Max_in[OF fin ne] .
  have top: "\<forall>k. Max ?S < k \<and> k < length (take n s) \<longrightarrow> take n s ! k \<noteq> c"
  proof (intro allI impI notI)
    fix k assume k: "Max ?S < k \<and> k < length (take n s)" and eq: "take n s ! k = c"
    then have "k \<in> ?S" using n by simp
    then have "k \<le> Max ?S" using fin by simp
    with k show False by simp
  qed
  have "rfind_scan (take n s) c 0 (- 1) = 0 + int (Max ?S)"
    using mem n by (intro rfind_scan_last top) auto
  with True show ?thesis by (simp add: str_rfind_def)
qed

text \<open>
  Claim C5. For every input and every index with \<open>0 \<le> index \<le> length input\<close>,
  \<open>line_info_at\<close> returns as line the number of newline characters among the first
  \<open>index\<close> characters, and as column \<open>index - 1 -\<close> (the offset of the last newline before
  \<open>index\<close>) when there is such a newline, else \<open>index\<close>.
\<close>

theorem line_info_at_line_and_column:
  assumes "0 \<le> index" and "index \<le> int (length stream)"
  shows "line_info_at stream index =
           Inr (int (card {j. j < nat index \<and> stream ! j = newline}),
                if \<exists>j < nat index. stream ! j = newline
                then index - 1 - int (Max {j. j < nat index \<and> stream ! j = newline})
                else index)"
proof -
  have n: "nat index \<le> length stream"
    using assms by simp
  have prefix: "py_slice stream 0 index = take (nat index) stream"
    using assms by (rule py_slice_prefix)
  show ?thesis
    using assms
    by (simp add: line_info_at_def prefix str_count_def filter_take_card[OF n]
        str_rfind_take[OF n] Let_def)
qed

theorem line_info_at_line_and_column_witness:
  "(0::int) \<le> 6 \<and> 6 \<le> int (length (''foo'' @ [newline] @ ''bar'')) \<and>
   line_info_at (''foo'' @ [newline] @ ''bar'') 6 =
     Inr (int (card {j. j < nat 6 \<and> (''foo'' @ [newline] @ ''bar'') ! j = newline}),
          if \<exists>j < nat 6. (''foo'' @ [newline] @ ''bar'') ! j = newline
          then 6 - 1 - int (Max {j. j < nat 6 \<and> (''foo'' @ [newline] @ ''bar'') ! j = newline})
          else 6)"
  using line_info_at_line_and_column[of 6 "''foo'' @ [newline] @ ''bar''"] by simp

text \<open>
  Claim C6, as stated: for the input \<open>foo\<newline>bar\<close> (seven characters, the newline at
  offset 3) and index 5, \<open>line_info_at\<close> yields line 1 and column 0. The code does not: the
  result differs from \<open>(1, 0)\<close>.
\<close>

theorem line_info_at_foo_bar_5_counterexample:
  "length (''foo'' @ [newline] @ ''bar'') = 7 \<and>
   (''foo'' @ [newline] @ ''bar'') ! 3 = newline \<and>
   (''foo'' @ [newline] @ ''bar'') ! 5 = CHR ''a'' \<and>
   line_info_at (''foo'' @ [newline] @ ''bar'') 5 \<noteq> Inr (1, 0)"
  by (simp add: line_info_at_def py_slice_def slice_bound_def str_count_def str_rfind_def
      newline_def)

text \<open>
  Claim C6, amended: for the input \<open>foo\<newline>bar\<close> and index 5 (the \<open>a\<close> of \<open>bar\<close>),
  \<open>line_info_at\<close> yields line 1 and column 1, as the rule of claim C5 gives:
  \<open>5 - 1 - 3 = 1\<close>.
\<close>

theorem line_info_at_foo_bar_5:
  "line_info_at (''foo'' @ [newline] @ ''bar'') 5 = Inr (1, 1)"
  by (simp add: line_info_at_def py_slice_def slice_bound_def str_count_def str_rfind_def
      newline_def)

text \<open>
  Claim C8, as stated: the rendering of a ParseError is
  \<open>parse error: expected {expected} at line {line}:col {col}\<close>. The format string of
  \<^verbatim>\<open>__str__\<close> has neither the word \<open>line\<close> nor the word \<open>col\<close>: for the error of
  expecting \<open>b\<close> at index 0 of the input \<open>c\<close> the rendering is
  \<open>parse error: expected b at 0:0\<close>.
\<close>

theorem ParseError_str_counterexample:
  "ParseError_str (\<lambda>v. case v of PyStr s \<Rightarrow> s | _ \<Rightarrow> []) (ParseError (PyStr ''b'') ''c'' 0)
     = Inr ''parse error: expected b at 0:0'' \<and>
   ParseError_str (\<lambda>v. case v of PyStr s \<Rightarrow> s | _ \<Rightarrow> []) (ParseError (PyStr ''b'') ''c'' 0)
     \<noteq> Inr ''parse error: expected b at line 0:col 0''"
  by (simp add: line_info_at_def py_slice_def slice_bound_def str_count_def str_rfind_def
      repr_int_def digit_char_def)

text \<open>
  Claim C8, amended: for every ParseError whose stored index is not beyond the end of the
  stored input, \<open>line_info_at\<close> locates it at some \<open>(line, col)\<close> and the rendering is exactly
  \<open>parse error: expected {expected} at {line}:{col}\<close>, the expectation converted by
  \<^verbatim>\<open>str\<close> and the two numbers written in decimal; for an index beyond the end of the input
  the rendering raises, as \<open>line_info_at\<close> does.
\<close>

theorem ParseError_str_format:
  "(index \<le> int (length stream) \<longrightarrow>
      (\<exists>line col. line_info_at stream index = Inr (line, col) \<and>
         ParseError_str py_str (ParseError expected stream index) =
           Inr (''parse error: expected '' @ py_str expected @ '' at ''
                @ repr_int line @ '':'' @ repr_int col))) \<and>
   (int (length stream) < index \<longrightarrow>
      ParseError_str py_str (ParseError expected stream index) = Inl InvalidIndex)"
  by (simp add: line_info_at_def Let_def)

theorem ParseError_str_format_witness:
  "line_info_at (''ab'' @ [newline] @ ''cdefghijklmnopq'') 15 = Inr (1, 12) \<and>
   ParseError_str (\<lambda>v. case v of PyStr s \<Rightarrow> s | _ \<Rightarrow> [])
       (ParseError (PyStr ''EOF'') (''ab'' @ [newline] @ ''cdefghijklmnopq'') 15)
     = Inr ''parse error: expected EOF at 1:12'' \<and>
   ParseError_str (\<lambda>v. case v of PyStr s \<Rightarrow> s | _ \<Rightarrow> []) (ParseError (PyStr ''EOF'') ''abc'' 5)
     = Inl InvalidIndex"
proof -
  let ?s = "''ab'' @ [newline] @ ''cdefghijklmnopq''"
  let ?f = "\<lambda>v. case v of PyStr s \<Rightarrow> s | _ \<Rightarrow> []"
  have loc: "line_info_at ?s 15 = Inr (1, 12)"
    by (simp add: line_info_at_def py_slice_def slice_bound_def str_count_def str_rfind_def
        newline_def)
  have "15 \<le> int (length ?s)" by simp
  with ParseError_str_format[of 15 ?s ?f "PyStr ''EOF''"]
  obtain line col where lc: "line_info_at ?s 15 = Inr (line, col)"
    and fmt: "ParseError_str ?f (ParseError (PyStr ''EOF'') ?s 15) =
           Inr (''parse error: expected '' @ ?f (PyStr ''EOF'') @ '' at ''
                @ repr_int line @ '':'' @ repr_int col)"
    by blast
  from lc loc have "line = 1" "col = 12" by simp_all
  moreover have "repr_int 1 = ''1''" "repr_int 12 = ''12''"
    by (simp_all add: repr_int_def digit_char_def)
  ultimately have first: "ParseError_str ?f (ParseError (PyStr ''EOF'') ?s 15)
     = Inr ''parse error: expected EOF at 1:12''"
    using fmt by simp
  have "int (length ''abc'') < 5" by simp
  with ParseError_str_format[of 5 "''abc''" ?f "PyStr ''EOF''"]
  have second: "ParseError_str ?f (ParseError (PyStr ''EOF'') ''abc'' 5) = Inl InvalidIndex"
    by blast
  show ?thesis by (intro conjI loc first second)
qed


section \<open>Combinators: theorems\<close>

lemma Parser_bind_failure:
  "self stream index = Some (Inr (False, new_index, expected)) \<Longrightarrow>
   Parser_bind self bind_fn stream index = Some (Inr (False, index, expected))"
  by (simp add: Parser_bind_def)

lemma Parser_bind_success:
  "self stream index = Some (Inr (True, new_index, v)) \<Longrightarrow> bind_fn v = Inr next_parser \<Longrightarrow>
   Parser_bind self bind_fn stream index = next_parser stream new_index"
  by (simp add: Parser_bind_def)

text \<open>The identity laws of \<^verbatim>\<open>bind\<close> and \<^verbatim>\<open>map\<close>.\<close>

lemma identity_laws:
  "Parser_bind (success v) (\<lambda>x. Inr (f x)) = f v"
  "Parser_map (success v) (\<lambda>x. Inr (g x)) = success (g v)"
  by (simp_all add: Parser_bind_def Parser_map_def success_def fun_eq_iff)

text \<open>
  Claim C1 says that \<open>bind(p, f)\<close> returns a failure of \<open>p\<close> with the index and the
  expectation that \<open>p\<close> reported. The failure branch of \<^verbatim>\<open>bound_parser\<close> returns its own
  starting index in place of the index \<open>p\<close> reported: \<open>string a\<close> taken twice fails on
  \<open>ab\<close> at index 1, and bound to any continuation it fails at index 0.
\<close>

theorem Parser_bind_failure_index:
  "Parser_times (string ''a'') 2 None ''ab'' 0 = Some (Inr (False, 1, PyStr ''a'')) \<and>
   Parser_bind (Parser_times (string ''a'') 2 None) (\<lambda>v. Inr (success v)) ''ab'' 0
     = Some (Inr (False, 0, PyStr ''a''))"
  by (simp add: Parser_bind_def times_2_a_ab)

text \<open>
  The same failure reaches the caller with two indices: \<^verbatim>\<open>parse_partial\<close> reports it where
  the parser reported it, and \<^verbatim>\<open>parse\<close>, which binds the parser to \<^verbatim>\<open>eof\<close>, reports it at
  index 0.
\<close>

lemma parse_reports_start_index:
  "Parser_parse (Parser_times (string ''a'') 2 None) ''ab''
     = Some (Inl (ParseErrorExc (ParseError (PyStr ''a'') ''ab'' 0)))"
  by (simp add: Parser_parse_def Parser_parse_partial_def Parser_lshift_def Parser_skip_def
      Parser_bind_def times_2_a_ab)

lemma parse_partial_reports_failure_index:
  "Parser_parse_partial (Parser_times (string ''a'') 2 None) ''ab''
     = Some (Inl (ParseErrorExc (ParseError (PyStr ''a'') ''ab'' 1)))"
  by (simp add: Parser_parse_partial_def times_2_a_ab)

text \<open>
  Claim C3. For parsers \<open>p\<close> and \<open>q\<close>, \<open>p | q\<close> is a parser; where \<open>p\<close> succeeds it returns
  the result of \<open>p\<close> whatever \<open>q\<close> is, also a \<open>q\<close> that raises or never returns, so \<open>q\<close> is
  not run; where \<open>p\<close> fails, at whatever index \<open>n\<close>, it returns what \<open>q\<close> returns from the
  starting index.
\<close>

theorem Parser_or_left_bias_and_backtracking:
  "Parser_or p (ParserObj q) = Inr (or_parser p q) \<and>
   (p stream index = Some (Inr (True, n, v))
      \<longrightarrow> or_parser p q stream index = Some (Inr (True, n, v))) \<and>
   (p stream index = Some (Inr (False, n, e))
      \<longrightarrow> or_parser p q stream index = q stream index)"
  by (simp add: or_parser_def)

theorem Parser_or_left_bias_and_backtracking_witness:
  "string ''a'' ''ab'' 0 = Some (Inr (True, 1, PyStr ''a'')) \<and>
   or_parser (string ''a'') (\<lambda>_ _. None) ''ab'' 0 = Some (Inr (True, 1, PyStr ''a'')) \<and>
   Parser_times (string ''a'') 2 None ''ab'' 0 = Some (Inr (False, 1, PyStr ''a'')) \<and>
   or_parser (Parser_times (string ''a'') 2 None) (string ''ab'') ''ab'' 0
     = Some (Inr (True, 2, PyStr ''ab''))"
  using
    Parser_or_left_bias_and_backtracking[where p = "string ''a''" and q = "\<lambda>_ _. None"
      and stream = "''ab''" and index = 0 and n = 1 and v = "PyStr ''a''"]
    Parser_or_left_bias_and_backtracking[where p = "Parser_times (string ''a'') 2 None"
      and q = "string ''ab''" and stream = "''ab''" and index = 0 and n = 1
      and e = "PyStr ''a''"]
  by (simp add: string_a_ab_0 times_2_a_ab string_ab_ab_0)

text \<open>
  Claim C7. \<open>times(p, 2, 4)\<close> on an input where \<open>p\<close> matches three times in a row and then
  fails succeeds with the three values in order and the index where the third match ended;
  on an input where \<open>p\<close> matches once and then fails it fails with the index and the
  expectation of the second invocation.
\<close>

theorem Parser_times_2_4_boundary:
  "(p stream i0 = Some (Inr (True, i1, v1)) \<and> p stream i1 = Some (Inr (True, i2, v2)) \<and>
    p stream i2 = Some (Inr (True, i3, v3)) \<and> p stream i3 = Some (Inr (False, j, e))
      \<longrightarrow> Parser_times p 2 (Some 4) stream i0 = Some (Inr (True, i3, PyList [v1, v2, v3]))) \<and>
   (p stream i0 = Some (Inr (True, i1, v1)) \<and> p stream i1 = Some (Inr (False, j, e))
      \<longrightarrow> Parser_times p 2 (Some 4) stream i0 = Some (Inr (False, j, e)))"
  by (simp add: Parser_times_def numeral_2_eq_2)

theorem Parser_times_2_4_boundary_witness:
  "string ''a'' ''aaab'' 0 = Some (Inr (True, 1, PyStr ''a'')) \<and>
   string ''a'' ''aaab'' 1 = Some (Inr (True, 2, PyStr ''a'')) \<and>
   string ''a'' ''aaab'' 2 = Some (Inr (True, 3, PyStr ''a'')) \<and>
   string ''a'' ''aaab'' 3 = Some (Inr (False, 3, PyStr ''a'')) \<and>
   Parser_times (string ''a'') 2 (Some 4) ''aaab'' 0
     = Some (Inr (True, 3, PyList [PyStr ''a'', PyStr ''a'', PyStr ''a''])) \<and>
   string ''a'' ''ab'' 0 = Some (Inr (True, 1, PyStr ''a'')) \<and>
   string ''a'' ''ab'' 1 = Some (Inr (False, 1, PyStr ''a'')) \<and>
   Parser_times (string ''a'') 2 (Some 4) ''ab'' 0 = Some (Inr (False, 1, PyStr ''a''))"
  using
    Parser_times_2_4_boundary[where p = "string ''a''" and stream = "''aaab''" and ?i0.0 = 0
      and ?i1.0 = 1 and ?i2.0 = 2 and ?i3.0 = 3 and j = 3 and e = "PyStr ''a''"
      and ?v1.0 = "PyStr ''a''" and ?v2.0 = "PyStr ''a''" and ?v3.0 = "PyStr ''a''"]
    Parser_times_2_4_boundary[where p = "string ''a''" and stream = "''ab''" and ?i0.0 = 0
      and ?i1.0 = 1 and j = 1 and e = "PyStr ''a''" and ?v1.0 = "PyStr ''a''"]
  by (simp add: string_a_aaab string_a_ab_0 string_a_ab_1)

text \<open>
  Claim C10. The parser of the empty literal succeeds at every index of every input, so
  at every index from 0 to the length of the input, the end of the input included; it
  returns the starting index as the next index and the empty string as the value.
\<close>

theorem string_empty_zero_width:
  "string [] stream index = Some (Inr (True, index, PyStr []))"
  by (simp add: string_def py_slice_def)

text \<open>
  The warning on \<^verbatim>\<open>many\<close>: over a parser that succeeds without consuming, here the
  parser of the empty literal, the loop never ends.
\<close>

lemma many_loop_zero_width:
  assumes "many_loop self stream index aggregate = Some y"
  shows "self = string [] \<longrightarrow> False"
proof (rule many_loop.raw_induct[OF _ assms], goal_cases)
  case (1 loop self stream index aggregate y)
  show ?case
  proof
    assume self: "self = string []"
    with 1(2) have "loop (string []) stream index (aggregate @ [PyStr []]) = Some y"
      by (simp add: string_def py_slice_def)
    from 1(1)[OF this] show False by simp
  qed
qed

lemma Parser_many_string_empty_diverges: "Parser_many (string []) stream index = None"
proof (cases "Parser_many (string []) stream index")
  case None
  then show ?thesis .
next
  case (Some y)
  then have "many_loop (string []) stream index [] = Some y"
    by (simp add: Parser_many_def)
  from many_loop_zero_width[OF this] show ?thesis by simp
qed

text \<open>The round trip of \<^verbatim>\<open>parse_partial\<close>.\<close>

lemma parse_partial_round_trip:
  "Parser_parse_partial (string ''ab'') ''abcd'' = Some (Inr (PyStr ''ab'', ''cd''))"
  by (simp add: Parser_parse_partial_def string_def py_slice_def slice_bound_def py_slice_from_def)


section \<open>Coroutine-style sequencing: theorems\<close>

lemma generated_loop_Yield:
  "generated_loop (Yield next_parser resume) stream index =
     (case next_parser stream index of
        None \<Rightarrow> None
      | Some (Inl e) \<Rightarrow>
          (case e of
             StopIteration returnVal \<Rightarrow> stop_iteration returnVal stream index
           | _ \<Rightarrow> Some (Inl e))
      | Some (Inr (status, index', value)) \<Rightarrow>
          if \<not> status then Some (Inr (False, index', value))
          else generated_loop (resume value) stream index')"
  by (subst generated_loop.simps) simp

lemma generated_loop_Return:
  "generated_loop (Return returnVal) stream index = stop_iteration returnVal stream index"
  by (subst generated_loop.simps) simp

lemma generated_loop_Raise:
  "generated_loop (Raise e) stream index =
     (case e of
        StopIteration returnVal \<Rightarrow> stop_iteration returnVal stream index
      | _ \<Rightarrow> Some (Inl e))"
  by (subst generated_loop.simps) simp

lemma generated_loop_ok:
  "next_parser stream index = Some (Inr (True, index', value)) \<Longrightarrow>
   generated_loop (Yield next_parser resume) stream index = generated_loop (resume value) stream index'"
  by (simp add: generated_loop_Yield)

lemma generated_loop_fail:
  "next_parser stream index = Some (Inr (False, index', value)) \<Longrightarrow>
   generated_loop (Yield next_parser resume) stream index = Some (Inr (False, index', value))"
  by (simp add: generated_loop_Yield)

lemma run_to_loop:
  "run_to stream iterator index iterator' index' \<Longrightarrow>
   generated_loop iterator stream index = generated_loop iterator' stream index'"
  by (induction rule: run_to.induct) (simp_all add: generated_loop_ok)

lemma Parser_desc_failure:
  "self stream index = Some (Inr (False, j, e)) \<Longrightarrow>
   Parser_desc self description stream index = Some (Inr (False, index, description))"
  by (simp add: Parser_desc_def or_parser_def fail_def)

lemma string_a_aa:
  "string ''a'' ''aa'' 0 = Some (Inr (True, 1, PyStr ''a''))"
  "string ''a'' ''aa'' 1 = Some (Inr (True, 2, PyStr ''a''))"
  by (simp_all add: string_def py_slice_def slice_bound_def)

text \<open>
  Claim C2, as stated: when the first failing sub-parser of a generated parser fails with
  some index and expectation, the generated parser fails with exactly that index and
  expectation. The parser that \<^verbatim>\<open>generate\<close> returns is the loop wrapped in
  \<^verbatim>\<open>desc(fn.__name__)\<close>. The generator \<open>pair\<close> yields \<open>string a\<close> twice: on \<open>ab\<close> the
  second sub-parser fails with index 1 and expectation \<open>a\<close>, and the generated parser fails
  with index 0 and expectation \<open>pair\<close>.
\<close>

theorem generate_failure_counterexample:
  "string ''a'' ''ab'' 0 = Some (Inr (True, 1, PyStr ''a'')) \<and>
   string ''a'' ''ab'' 1 = Some (Inr (False, 1, PyStr ''a'')) \<and>
   generate (GeneratorFn ''pair''
       (Yield (string ''a'') (\<lambda>x. Yield (string ''a'') (\<lambda>y. Return (Value (PyTuple [x, y]))))))
     ''ab'' 0 = Some (Inr (False, 0, PyStr ''pair'')) \<and>
   generate (GeneratorFn ''pair''
       (Yield (string ''a'') (\<lambda>x. Yield (string ''a'') (\<lambda>y. Return (Value (PyTuple [x, y]))))))
     ''ab'' 0 \<noteq> Some (Inr (False, 1, PyStr ''a''))"
  by (simp add: generate_def generated_def Parser_desc_def or_parser_def fail_def
      generated_loop_Yield string_a_ab_0 string_a_ab_1)

text \<open>
  Claim C2, amended: when the parsers a generator yields succeed up to some step and the
  parser yielded at that step fails with the index \<open>j\<close> and the expectation \<open>expected\<close>,
  the loop of the generated parser returns at once exactly this failure, whatever the
  generator would do after that step (\<open>resume\<close> is arbitrary, so nothing after the failing
  step runs); the parser that \<^verbatim>\<open>generate\<close> returns wraps the loop in
  \<^verbatim>\<open>desc(fn.__name__)\<close> and fails at its own starting index with the expectation
  \<^verbatim>\<open>fn.__name__\<close>, and, when a label is given, with the label. The failure holds no value
  collected before the failing step.
\<close>

theorem generate_first_failure:
  assumes "run_to stream (fn_call fn) index (Yield failing resume) i"
    and "failing stream i = Some (Inr (False, j, expected))"
  shows "generated fn stream index = Some (Inr (False, j, expected)) \<and>
         generate fn stream index = Some (Inr (False, index, PyStr (fn_name fn))) \<and>
         generate_labelled label fn stream index = Some (Inr (False, index, PyStr label))"
proof -
  have inner: "generated fn stream index = Some (Inr (False, j, expected))"
    using run_to_loop[OF assms(1)]
      generated_loop_fail[where next_parser = failing and stream = stream and index = i, OF assms(2)]
    by (simp add: generated_def)
  have outer: "generate fn stream index = Some (Inr (False, index, PyStr (fn_name fn)))"
    unfolding generate_def
    by (rule Parser_desc_failure[where self = "generated fn", OF inner])
  have "generate_labelled label fn stream index = Some (Inr (False, index, PyStr label))"
    unfolding generate_labelled_def
    by (rule Parser_desc_failure[where self = "generate fn", OF outer])
  with inner outer show ?thesis by simp
qed

theorem generate_first_failure_witness:
  "run_to ''ab''
     (fn_call (GeneratorFn ''pair''
        (Yield (string ''a'') (\<lambda>x. Yield (string ''a'') (\<lambda>y. Raise (HostError ''not reached''))))))
     0 (Yield (string ''a'') (\<lambda>y. Raise (HostError ''not reached''))) 1 \<and>
   string ''a'' ''ab'' 1 = Some (Inr (False, 1, PyStr ''a'')) \<and>
   generated (GeneratorFn ''pair''
        (Yield (string ''a'') (\<lambda>x. Yield (string ''a'') (\<lambda>y. Raise (HostError ''not reached'')))))
     ''ab'' 0 = Some (Inr (False, 1, PyStr ''a'')) \<and>
   generate (GeneratorFn ''pair''
        (Yield (string ''a'') (\<lambda>x. Yield (string ''a'') (\<lambda>y. Raise (HostError ''not reached'')))))
     ''ab'' 0 = Some (Inr (False, 0, PyStr ''pair'')) \<and>
   generate_labelled ''two letters'' (GeneratorFn ''pair''
        (Yield (string ''a'') (\<lambda>x. Yield (string ''a'') (\<lambda>y. Raise (HostError ''not reached'')))))
     ''ab'' 0 = Some (Inr (False, 0, PyStr ''two letters''))"
proof -
  let ?rest = "Yield (string ''a'') (\<lambda>y. Raise (HostError ''not reached''))"
  let ?fn = "GeneratorFn ''pair'' (Yield (string ''a'') (\<lambda>x. ?rest))"
  have reach: "run_to ''ab'' (fn_call ?fn) 0 ?rest 1"
    using run_step[where next_parser = "string ''a''" and stream = "''ab''" and index = 0
        and index' = 1 and sent = "PyStr ''a''" and resume = "\<lambda>x. ?rest"
        and iterator' = ?rest and index'' = 1]
    by (simp add: string_a_ab_0 run_here)
  show ?thesis
    using generate_first_failure[OF reach string_a_ab_1, of "''two letters''"] reach string_a_ab_1 by simp
qed

text \<open>
  The hand-chained expression, one step at a time: a yield is a \<^verbatim>\<open>bind\<close> whose callback
  returns the chain of the rest of the body.
\<close>

lemma bind_chain_Yield:
  "bind_chain (Yield p resume) = Parser_bind p (\<lambda>x. Inr (bind_chain (resume x)))"
  by (intro ext, subst bind_chain.simps) simp

lemma bind_chain_Return: "bind_chain (Return returnVal) = chain_end returnVal"
  by (intro ext, subst bind_chain.simps) simp

lemma bind_chain_Raise:
  "bind_chain (Raise e) stream index =
     (case e of
        StopIteration returnVal \<Rightarrow> chain_end returnVal stream index
      | _ \<Rightarrow> Some (Inl e))"
  by (subst bind_chain.simps) simp

lemma chain_end_stop_iteration: "chain_end returnVal = stop_iteration returnVal"
  by (cases returnVal) (simp_all add: stop_iteration_def success_def fun_eq_iff)

lemma no_stop_here:
  "no_stop stream (Yield p resume) index \<Longrightarrow> p stream index \<noteq> Some (Inl (StopIteration r))"
  unfolding no_stop_def using run_here by blast

lemma no_stop_step:
  assumes "no_stop stream (Yield p resume) index"
    and "p stream index = Some (Inr (True, index', sent))"
  shows "no_stop stream (resume sent) index'"
  unfolding no_stop_def
proof (intro allI impI)
  fix q resume' i r
  assume "run_to stream (resume sent) index' (Yield q resume') i"
  then have "run_to stream (Yield p resume) index (Yield q resume') i"
    using assms(2) by (rule run_step[rotated])
  with assms(1) show "q stream i \<noteq> Some (Inl (StopIteration r))"
    unfolding no_stop_def by blast
qed

text \<open>
  Where no yielded parser raises \<^verbatim>\<open>StopIteration\<close>, the loop of \<^verbatim>\<open>generated\<close> and the chain
  agree: each returns when the other does, with the same outcome, or with two failures of
  the same expectation.
\<close>

lemma generated_loop_agree:
  assumes run: "generated_loop g stream index = Some y"
  shows "no_stop stream g index \<longrightarrow> agree (Some y) (bind_chain g stream index)"
proof (rule generated_loop.raw_induct[OF _ run], goal_cases)
  case (1 loop g stream index y)
  show ?case
  proof
    assume ns: "no_stop stream g index"
    show "agree (Some y) (bind_chain g stream index)"
    proof (cases g)
      case (Yield p resume)
      show ?thesis
      proof (cases "p stream index")
        case None
        with 1(2) Yield show ?thesis by simp
      next
        case (Some r)
        show ?thesis
        proof (cases r)
          case (Inl e)
          have "\<forall>rv. e \<noteq> StopIteration rv"
            using no_stop_here[of stream p resume index] ns Yield Some Inl by auto
          then have "Some y = Some (Inl e)"
            using 1(2) Yield Some Inl by (cases e) auto
          moreover have "bind_chain g stream index = Some (Inl e)"
            using Yield Some Inl by (simp add: bind_chain_Yield Parser_bind_def)
          ultimately show ?thesis by (simp add: agree_def)
        next
          case (Inr t)
          obtain status index' v where t: "t = (status, index', v)" by (cases t)
          show ?thesis
          proof (cases status)
            case False
            with 1(2) Yield Some Inr t have "y = Inr (False, index', v)" by simp
            moreover have "bind_chain g stream index = Some (Inr (False, index, v))"
              using Yield Some Inr t False by (simp add: bind_chain_Yield Parser_bind_def)
            ultimately show ?thesis by (simp add: agree_def)
          next
            case True
            with 1(2) Yield Some Inr t have rest: "loop (resume v) stream index' = Some y" by simp
            have "no_stop stream (resume v) index'"
              using no_stop_step[of stream p resume index index' v] ns Yield Some Inr t True by simp
            with 1(1)[OF rest] have "agree (Some y) (bind_chain (resume v) stream index')" by simp
            moreover have "bind_chain g stream index = bind_chain (resume v) stream index'"
              using Yield Some Inr t True by (simp add: bind_chain_Yield Parser_bind_def)
            ultimately show ?thesis by simp
          qed
        qed
      qed
    next
      case (Return returnVal)
      with 1(2) show ?thesis
        by (simp add: bind_chain_Return chain_end_stop_iteration agree_def)
    next
      case (Raise e)
      with 1(2) show ?thesis
        by (cases e) (simp_all add: bind_chain_Raise chain_end_stop_iteration agree_def)
    qed
  qed
qed

lemma bind_chain_agree:
  assumes run: "bind_chain g stream index = Some y"
  shows "no_stop stream g index \<longrightarrow> agree (generated_loop g stream index) (Some y)"
proof (rule bind_chain.raw_induct[OF _ run], goal_cases)
  case (1 chain g stream index y)
  show ?case
  proof
    assume ns: "no_stop stream g index"
    show "agree (generated_loop g stream index) (Some y)"
    proof (cases g)
      case (Yield p resume)
      show ?thesis
      proof (cases "p stream index")
        case None
        with 1(2) Yield show ?thesis by (simp add: Parser_bind_def)
      next
        case (Some r)
        show ?thesis
        proof (cases r)
          case (Inl e)
          have "\<forall>rv. e \<noteq> StopIteration rv"
            using no_stop_here[of stream p resume index] ns Yield Some Inl by auto
          then have "generated_loop g stream index = Some (Inl e)"
            using Yield Some Inl by (cases e) (auto simp: generated_loop_Yield)
          moreover have "Some y = Some (Inl e)"
            using 1(2) Yield Some Inl by (simp add: Parser_bind_def)
          ultimately show ?thesis by (simp add: agree_def)
        next
          case (Inr t)
          obtain status index' v where t: "t = (status, index', v)" by (cases t)
          show ?thesis
          proof (cases status)
            case False
            with 1(2) Yield Some Inr t have "y = Inr (False, index, v)"
              by (simp add: Parser_bind_def)
            moreover have "generated_loop g stream index = Some (Inr (False, index', v))"
              using Yield Some Inr t False by (simp add: generated_loop_Yield)
            ultimately show ?thesis by (simp add: agree_def)
          next
            case True
            with 1(2) Yield Some Inr t have rest: "chain (resume v) stream index' = Some y"
              by (simp add: Parser_bind_def)
            have "no_stop stream (resume v) index'"
              using no_stop_step[of stream p resume index index' v] ns Yield Some Inr t True by simp
            with 1(1)[OF rest] have "agree (generated_loop (resume v) stream index') (Some y)" by simp
            moreover have "generated_loop g stream index = generated_loop (resume v) stream index'"
              using Yield Some Inr t True by (simp add: generated_loop_Yield)
            ultimately show ?thesis by simp
          qed
        qed
      qed
    next
      case (Return returnVal)
      with 1(2) show ?thesis
        by (simp add: generated_loop_Return chain_end_stop_iteration agree_def)
    next
      case (Raise e)
      with 1(2) show ?thesis
        by (cases e) (simp_all add: generated_loop_Raise chain_end_stop_iteration agree_def)
    qed
  qed
qed

lemma generated_loop_bind_chain:
  assumes "no_stop stream g index"
  shows "agree (generated_loop g stream index) (bind_chain g stream index)"
proof (cases "generated_loop g stream index")
  case (Some y)
  with generated_loop_agree[OF Some] assms show ?thesis by simp
next
  case None
  show ?thesis
  proof (cases "bind_chain g stream index")
    case (Some y)
    with bind_chain_agree[OF Some] assms None show ?thesis by (simp add: agree_def)
  next
    case None
    with \<open>generated_loop g stream index = None\<close> show ?thesis by (simp add: agree_def)
  qed
qed

lemma agree_desc:
  "agree (p stream index) (q stream index) \<Longrightarrow>
   Parser_desc p d stream index = Parser_desc q d stream index"
  by (auto simp: agree_def Parser_desc_def or_parser_def)

lemma Parser_desc_desc:
  "Parser_desc (Parser_desc p d) d' stream index = Parser_desc p d' stream index"
  by (auto simp: Parser_desc_def or_parser_def fail_def split: option.splits sum.splits)

lemma Parser_desc_success:
  "(Parser_desc p d stream index = Some (Inr (True, n, v))) = (p stream index = Some (Inr (True, n, v)))"
  by (auto simp: Parser_desc_def or_parser_def fail_def split: option.splits sum.splits if_splits)

lemma bind_chain_pair:
  "bind_chain (Yield (string ''a'') (\<lambda>x. Yield (string ''a'') (\<lambda>y. Return (Value (PyTuple [x, y])))))
     = Parser_bind (string ''a'') (\<lambda>x. Inr (Parser_bind (string ''a'')
                                    (\<lambda>y. Inr (success (PyTuple [x, y])))))"
  by (simp add: bind_chain_Yield bind_chain_Return)

text \<open>
  Claim C4, as stated: the parser built by \<^verbatim>\<open>generate\<close> and the hand-chained \<^verbatim>\<open>bind\<close>
  expression of the same grammar return identical results for every input and index. They
  do not. For the generator \<open>pair\<close> and its chain, on \<open>ab\<close> from index 0 the first fails
  with index 0 and expectation \<open>pair\<close>, the second with index 1 and expectation \<open>a\<close>. And
  where a yielded parser raises \<^verbatim>\<open>StopIteration\<close>, here with the value 7, the generated
  parser takes it for the return of the generator and succeeds with 7, and the chain
  raises.
\<close>

theorem generate_bind_chain_counterexample:
  "bind_chain
     (fn_call (GeneratorFn ''pair''
        (Yield (string ''a'') (\<lambda>x. Yield (string ''a'') (\<lambda>y. Return (Value (PyTuple [x, y])))))))
     = Parser_bind (string ''a'') (\<lambda>x. Inr (Parser_bind (string ''a'')
                                    (\<lambda>y. Inr (success (PyTuple [x, y]))))) \<and>
   generate (GeneratorFn ''pair''
       (Yield (string ''a'') (\<lambda>x. Yield (string ''a'') (\<lambda>y. Return (Value (PyTuple [x, y]))))))
     ''ab'' 0 = Some (Inr (False, 0, PyStr ''pair'')) \<and>
   Parser_bind (string ''a'') (\<lambda>x. Inr (Parser_bind (string ''a'')
                                    (\<lambda>y. Inr (success (PyTuple [x, y])))))
     ''ab'' 0 = Some (Inr (False, 1, PyStr ''a'')) \<and>
   generate (GeneratorFn ''g''
       (Yield (Parser_bind (success PyNone) (\<lambda>_. Inl (StopIteration (Value (PyInt 7)))))
          (\<lambda>x. Return (Value x)))) ''ab'' 0
     = Some (Inr (True, 0, PyInt 7)) \<and>
   bind_chain (fn_call (GeneratorFn ''g''
       (Yield (Parser_bind (success PyNone) (\<lambda>_. Inl (StopIteration (Value (PyInt 7)))))
          (\<lambda>x. Return (Value x))))) ''ab'' 0
     = Some (Inl (StopIteration (Value (PyInt 7))))"
proof -
  have pair: "bind_chain
     (fn_call (GeneratorFn ''pair''
        (Yield (string ''a'') (\<lambda>x. Yield (string ''a'') (\<lambda>y. Return (Value (PyTuple [x, y])))))))
     = Parser_bind (string ''a'') (\<lambda>x. Inr (Parser_bind (string ''a'')
                                    (\<lambda>y. Inr (success (PyTuple [x, y])))))"
    by (simp add: bind_chain_pair)
  have gen: "generate (GeneratorFn ''pair''
       (Yield (string ''a'') (\<lambda>x. Yield (string ''a'') (\<lambda>y. Return (Value (PyTuple [x, y]))))))
     ''ab'' 0 = Some (Inr (False, 0, PyStr ''pair''))"
    by (simp add: generate_def generated_def Parser_desc_def or_parser_def fail_def
        generated_loop_Yield string_a_ab_0 string_a_ab_1)
  have chain: "Parser_bind (string ''a'') (\<lambda>x. Inr (Parser_bind (string ''a'')
                                    (\<lambda>y. Inr (success (PyTuple [x, y])))))
     ''ab'' 0 = Some (Inr (False, 1, PyStr ''a''))"
    by (simp add: Parser_bind_def string_a_ab_0 string_a_ab_1)
  have stop: "generate (GeneratorFn ''g''
       (Yield (Parser_bind (success PyNone) (\<lambda>_. Inl (StopIteration (Value (PyInt 7)))))
          (\<lambda>x. Return (Value x)))) ''ab'' 0
     = Some (Inr (True, 0, PyInt 7))"
    by (simp add: generate_def generated_def Parser_desc_def or_parser_def generated_loop_Yield
        Parser_bind_def success_def stop_iteration_def)
  have raise: "bind_chain (fn_call (GeneratorFn ''g''
       (Yield (Parser_bind (success PyNone) (\<lambda>_. Inl (StopIteration (Value (PyInt 7)))))
          (\<lambda>x. Return (Value x))))) ''ab'' 0
     = Some (Inl (StopIteration (Value (PyInt 7))))"
    by (simp add: bind_chain_Yield Parser_bind_def success_def)
  show ?thesis
    by (intro conjI pair gen chain stop raise)
qed

text \<open>
  A looping generator, its chain and its run on two inputs.
\<close>

lemma run_to_hands_over:
  "run_to stream g index g' index' \<Longrightarrow> g' = Yield p resume \<Longrightarrow> hands_over g p"
  by (induction rule: run_to.induct) (auto intro: hands_over.intros)

lemma no_stop_hands_over:
  assumes "\<And>p i r. hands_over g p \<Longrightarrow> p stream i \<noteq> Some (Inl (StopIteration r))"
  shows "no_stop stream g index"
  unfolding no_stop_def using assms run_to_hands_over by blast

lemma hands_over_until_semicolon:
  "hands_over g q \<Longrightarrow> g = until_semicolon p \<or> g = Return (Value PyNone) \<Longrightarrow> q = p"
proof (induction rule: hands_over.induct)
  case (hands_yield p' resume)
  then have "Yield p' resume = until_semicolon p" by auto
  then show ?case by (subst (asm) until_semicolon.code) simp
next
  case (hands_later resume v q p')
  then have "Yield p' resume = until_semicolon p" by auto
  then have "resume = (\<lambda>v. if v = PyStr '';'' then Return (Value PyNone) else until_semicolon p)"
    by (subst (asm) until_semicolon.code) simp
  then have "resume v = until_semicolon p \<or> resume v = Return (Value PyNone)" by simp
  then show ?case by (rule hands_later.IH)
next
  case (hands_return p')
  then show ?case by (subst (asm) until_semicolon.code) simp
next
  case (hands_raise p')
  then show ?case by (subst (asm) until_semicolon.code) simp
qed

lemma item_matcher_quiet:
  "item_matcher fn message stream index \<noteq> Some (Inl (StopIteration r))"
  by (simp add: item_matcher_def py_getitem_def split: if_splits)

lemma no_stop_until_item:
  "no_stop stream (until_semicolon (item_matcher fn message)) index"
proof (rule no_stop_hands_over)
  fix p i r
  assume "hands_over (until_semicolon (item_matcher fn message)) p"
  then have "p = item_matcher fn message"
    by (rule hands_over_until_semicolon) simp
  then show "p stream i \<noteq> Some (Inl (StopIteration r))"
    by (simp add: item_matcher_quiet)
qed

lemma generated_loop_until:
  "p stream index = Some (Inr (True, index', v)) \<Longrightarrow>
   generated_loop (until_semicolon p) stream index =
   generated_loop (if v = PyStr '';'' then Return (Value PyNone) else until_semicolon p) stream index'"
  by (subst until_semicolon.code) (simp add: generated_loop_Yield)

lemma bind_chain_until_semicolon:
  "bind_chain (until_semicolon p)
     = Parser_bind p (\<lambda>v. Inr (if v = PyStr '';'' then success PyNone
                                else bind_chain (until_semicolon p)))"
proof -
  have "bind_chain (until_semicolon p)
          = bind_chain (Yield p (\<lambda>v. if v = PyStr '';'' then Return (Value PyNone)
                                       else until_semicolon p))"
    by (subst until_semicolon.code) simp
  also have "\<dots> = Parser_bind p (\<lambda>v. Inr (bind_chain (if v = PyStr '';'' then Return (Value PyNone)
                                       else until_semicolon p)))"
    by (rule bind_chain_Yield)
  also have "(\<lambda>v. Inr (bind_chain (if v = PyStr '';'' then Return (Value PyNone)
                                       else until_semicolon p)))
      = (\<lambda>v. Inr (if v = PyStr '';'' then success PyNone else bind_chain (until_semicolon p)))"
    by (auto simp: fun_eq_iff bind_chain_Return)
  finally show ?thesis .
qed

lemma any_item:
  "item_matcher (\<lambda>c. True) PyNone ''a;'' 0 = Some (Inr (True, 1, PyStr ''a''))"
  "item_matcher (\<lambda>c. True) PyNone ''a;'' 1 = Some (Inr (True, 2, PyStr '';''))"
  "item_matcher (\<lambda>c. True) PyNone ''a'' 0 = Some (Inr (True, 1, PyStr ''a''))"
  "item_matcher (\<lambda>c. True) PyNone ''a'' 1 = Some (Inr (False, 1, PyNone))"
  by (simp_all add: item_matcher_def py_getitem_def)

lemma generated_until_a_semicolon:
  "generated (GeneratorFn ''items'' (until_semicolon (item_matcher (\<lambda>c. True) PyNone))) ''a;'' 0
     = Some (Inr (True, 2, PyNone))"
  by (simp add: generated_def
      generated_loop_until[where p = "item_matcher (\<lambda>c. True) PyNone", OF any_item(1)]
      generated_loop_until[where p = "item_matcher (\<lambda>c. True) PyNone", OF any_item(2)]
      generated_loop_Return stop_iteration_def)

lemma generated_until_a:
  "generated (GeneratorFn ''items'' (until_semicolon (item_matcher (\<lambda>c. True) PyNone))) ''a'' 0
     = Some (Inr (False, 1, PyNone))"
proof -
  have "generated_loop (until_semicolon (item_matcher (\<lambda>c. True) PyNone)) ''a'' 1
          = Some (Inr (False, 1, PyNone))"
    by (subst until_semicolon.code) (simp add: generated_loop_Yield any_item)
  then show ?thesis
    by (simp add: generated_def
        generated_loop_until[where p = "item_matcher (\<lambda>c. True) PyNone", OF any_item(3)])
qed

text \<open>
  Claim C4, amended: every generator has a hand-chained \<^verbatim>\<open>bind\<close> expression, \<open>bind_chain\<close>
  of it (each yield a \<^verbatim>\<open>bind\<close>, a returned value a \<^verbatim>\<open>success\<close>, a returned parser itself, a
  loop a recursion). For every grammar authored with \<^verbatim>\<open>generate\<close>, with a label or without
  one, and for every input and starting index on which no yielded parser raises
  \<^verbatim>\<open>StopIteration\<close>, the parser built by \<^verbatim>\<open>generate\<close> returns exactly what that chain
  wrapped in \<^verbatim>\<open>desc\<close> of the label returns, the label being the given one, or
  \<^verbatim>\<open>fn.__name__\<close> when none is given. So the two return the same successes, with the same
  next index and value, and where one fails the other fails, the parser built by
  \<^verbatim>\<open>generate\<close> with its own starting index and the label as the expectation.
\<close>

theorem generate_bind_chain_under_desc:
  assumes "no_stop stream (fn_call fn) index"
  shows "generate fn stream index
           = Parser_desc (bind_chain (fn_call fn)) (PyStr (fn_name fn)) stream index \<and>
         generate_labelled label fn stream index
           = Parser_desc (bind_chain (fn_call fn)) (PyStr label) stream index \<and>
         (generate fn stream index = Some (Inr (True, n, v))
            \<longleftrightarrow> bind_chain (fn_call fn) stream index = Some (Inr (True, n, v))) \<and>
         (generate_labelled label fn stream index = Some (Inr (True, n, v))
            \<longleftrightarrow> bind_chain (fn_call fn) stream index = Some (Inr (True, n, v)))"
proof -
  have a: "agree (generated fn stream index) (bind_chain (fn_call fn) stream index)"
    using generated_loop_bind_chain[OF assms] by (simp add: generated_def)
  have eq: "generate fn stream index
              = Parser_desc (bind_chain (fn_call fn)) (PyStr (fn_name fn)) stream index"
    unfolding generate_def
    by (rule agree_desc[where p = "generated fn" and q = "bind_chain (fn_call fn)", OF a])
  have eq': "generate_labelled label fn stream index
              = Parser_desc (bind_chain (fn_call fn)) (PyStr label) stream index"
    unfolding generate_labelled_def generate_def Parser_desc_desc
    by (rule agree_desc[where p = "generated fn" and q = "bind_chain (fn_call fn)", OF a])
  show ?thesis
    unfolding eq eq' Parser_desc_success by simp
qed

theorem generate_bind_chain_under_desc_witness:
  "no_stop ''a;'' (fn_call (GeneratorFn ''items''
                    (until_semicolon (item_matcher (\<lambda>c. True) PyNone)))) 0 \<and>
   generate (GeneratorFn ''items'' (until_semicolon (item_matcher (\<lambda>c. True) PyNone))) ''a;'' 0
     = Some (Inr (True, 2, PyNone)) \<and>
   generate_labelled ''list'' (GeneratorFn ''items''
       (until_semicolon (item_matcher (\<lambda>c. True) PyNone))) ''a;'' 0
     = Some (Inr (True, 2, PyNone)) \<and>
   bind_chain (fn_call (GeneratorFn ''items''
       (until_semicolon (item_matcher (\<lambda>c. True) PyNone)))) ''a;'' 0
     = Some (Inr (True, 2, PyNone)) \<and>
   no_stop ''a'' (fn_call (GeneratorFn ''items''
                    (until_semicolon (item_matcher (\<lambda>c. True) PyNone)))) 0 \<and>
   generate (GeneratorFn ''items'' (until_semicolon (item_matcher (\<lambda>c. True) PyNone))) ''a'' 0
     = Some (Inr (False, 0, PyStr ''items'')) \<and>
   Parser_desc (bind_chain (fn_call (GeneratorFn ''items''
       (until_semicolon (item_matcher (\<lambda>c. True) PyNone))))) (PyStr ''items'') ''a'' 0
     = Some (Inr (False, 0, PyStr ''items'')) \<and>
   generate_labelled ''list'' (GeneratorFn ''items''
       (until_semicolon (item_matcher (\<lambda>c. True) PyNone))) ''a'' 0
     = Some (Inr (False, 0, PyStr ''list'')) \<and>
   Parser_desc (bind_chain (fn_call (GeneratorFn ''items''
       (until_semicolon (item_matcher (\<lambda>c. True) PyNone))))) (PyStr ''list'') ''a'' 0
     = Some (Inr (False, 0, PyStr ''list''))"
proof -
  let ?fn = "GeneratorFn ''items'' (until_semicolon (item_matcher (\<lambda>c. True) PyNone))"
  have ns1: "no_stop ''a;'' (fn_call ?fn) 0" and ns2: "no_stop ''a'' (fn_call ?fn) 0"
    by (simp_all add: no_stop_until_item)
  have g1: "generate ?fn ''a;'' 0 = Some (Inr (True, 2, PyNone))"
    by (simp add: generate_def Parser_desc_def or_parser_def generated_until_a_semicolon)
  have l1: "generate_labelled ''list'' ?fn ''a;'' 0 = Some (Inr (True, 2, PyNone))"
    by (simp add: generate_labelled_def Parser_desc_def or_parser_def g1)
  note t1 = generate_bind_chain_under_desc[OF ns1, of "''list''" 2 PyNone]
  have c1: "bind_chain (fn_call ?fn) ''a;'' 0 = Some (Inr (True, 2, PyNone))"
    using t1 g1 by blast
  have g2: "generate ?fn ''a'' 0 = Some (Inr (False, 0, PyStr ''items''))"
    by (simp add: generate_def Parser_desc_def or_parser_def fail_def generated_until_a)
  have l2: "generate_labelled ''list'' ?fn ''a'' 0 = Some (Inr (False, 0, PyStr ''list''))"
    by (simp add: generate_labelled_def Parser_desc_def or_parser_def fail_def g2)
  note t2 = generate_bind_chain_under_desc[OF ns2, of "''list''" 0 PyNone]
  have d2: "Parser_desc (bind_chain (fn_call ?fn)) (PyStr ''items'') ''a'' 0
              = Some (Inr (False, 0, PyStr ''items''))"
    using conjunct1[OF t2] g2 by (simp only: fn_name.simps)
  have e2: "Parser_desc (bind_chain (fn_call ?fn)) (PyStr ''list'') ''a'' 0
              = Some (Inr (False, 0, PyStr ''list''))"
    using conjunct1[OF conjunct2[OF t2]] l2 by simp
  show ?thesis
    by (intro conjI ns1 g1 l1 c1 ns2 g2 d2 l2 e2)
qed


section \<open>Progress of the index\<close>































text \<open>The family \<open>library_parser\<close> is closed under the derived combinators.\<close>

lemma library_parser_map:
  "library_parser res self \<Longrightarrow>
   (\<And>x q. map_fn x = Inl (StopIteration (ParserObj q)) \<Longrightarrow> library_parser res q) \<Longrightarrow>
   library_parser res (Parser_map self map_fn)"
  unfolding Parser_map_def
  by (rule lib_bind) (auto split: sum.splits intro: lib_success)

lemma library_parser_then:
  "library_parser res self \<Longrightarrow> library_parser res other \<Longrightarrow>
   library_parser res (Parser_then self other)"
  unfolding Parser_then_def by (rule lib_bind) auto

lemma library_parser_result:
  "library_parser res self \<Longrightarrow> library_parser res (Parser_result self val)"
  unfolding Parser_result_def Parser_rshift_def
  by (rule library_parser_then) (auto intro: lib_success)

lemma library_parser_skip:
  "library_parser res self \<Longrightarrow> library_parser res other \<Longrightarrow>
   library_parser res (Parser_skip self other)"
  unfolding Parser_skip_def by (rule lib_bind) (auto intro: library_parser_result)

lemma library_parser_shifts:
  "library_parser res self \<Longrightarrow> library_parser res other \<Longrightarrow>
   library_parser res (Parser_rshift self other) \<and> library_parser res (Parser_lshift self other)"
  by (simp add: Parser_rshift_def Parser_lshift_def library_parser_then library_parser_skip)

lemma library_parser_desc:
  "library_parser res self \<Longrightarrow> library_parser res (Parser_desc self description)"
  unfolding Parser_desc_def by (rule lib_or) (auto intro: lib_fail)

lemma library_parser_or:
  "library_parser res self \<Longrightarrow> library_parser res other \<Longrightarrow>
   \<exists>p. Parser_or self (ParserObj other) = Inr p \<and> library_parser res p"
  by (simp add: lib_or)

lemma py_add_error: "py_add a b = Inl e \<Longrightarrow> e = TypeError"
  by (cases "(a, b)" rule: py_add.cases) auto

lemma library_parser_add:
  "library_parser res self \<Longrightarrow> library_parser res other \<Longrightarrow>
   library_parser res (Parser_add self other)"
  unfolding Parser_add_def
  by (rule lib_bind) (auto intro: library_parser_map dest: py_add_error)

lemma library_parser_quantifiers:
  "library_parser res self \<Longrightarrow>
   library_parser res (Parser_at_most self n) \<and> library_parser res (Parser_at_least self n) \<and>
   library_parser res (Parser_mul self arg)"
  by (cases arg) (simp_all add: Parser_at_most_def Parser_at_least_def library_parser_add
      lib_times lib_many)

lemma library_parser_generate:
  assumes "\<And>p. hands_over (fn_call fn) p \<Longrightarrow> library_parser res p"
  shows "library_parser res (generate fn) \<and> library_parser res (generate_labelled label fn)"
  unfolding generate_def generate_labelled_def generate_def
  by (intro conjI library_parser_desc lib_generated assms)

inductive_simps hands_over_Yield: "hands_over (Yield p resume) q"

inductive_simps hands_over_Return: "hands_over (Return r) q"

inductive_simps hands_over_Raise: "hands_over (Raise e) q"

lemma library_parser_mark:
  assumes "library_parser res self"
  shows "library_parser res (Parser_mark self)"
proof -
  have "library_parser res p"
    if "hands_over (fn_call (GeneratorFn ''marked''
       (Yield line_info (\<lambda>start.
        Yield self (\<lambda>body.
        Yield line_info (\<lambda>end_pos.
        Return (Value (PyTuple [start, body, end_pos])))))))) p" for p
    using that assms
    by (auto simp: hands_over_Yield hands_over_Return intro: lib_line_info)
  then show ?thesis
    unfolding Parser_mark_def by (intro conjunct1[OF library_parser_generate])
qed

lemma library_parser_primitives:
  "library_parser res (letter isalpha) \<and> library_parser res (digit isdigit)"
  by (simp add: letter_def digit_def lib_item_matcher)

lemma library_parser_regex:
  "regex re_compile exp flags = Inr p \<Longrightarrow>
   (case exp of Inl src \<Rightarrow> (\<forall>c. re_compile src flags = Inr c \<longrightarrow> c \<in> res) | Inr c \<Rightarrow> c \<in> res) \<Longrightarrow>
   library_parser res p"
  by (auto simp: regex_def split: sum.splits intro: lib_regex)












end
